theory Spec2Isabelle
  imports Complex_Main "HOL-Library.AList"
begin

section \<open>Python values decoded from JSON\<close>

text \<open>
  The watcher handles the dictionaries that \<^verbatim>\<open>spotipy\<close> decodes from the remote's JSON:
  \<^verbatim>\<open>None\<close>, booleans, integers, strings, lists and dictionaries. A dictionary is an
  association list in insertion order; \<open>map_of\<close> reads it and \<open>AList.update\<close> writes it
  (an existing key keeps its place, a new key goes to the end, as in Python).
  Floating-point numbers are left out: the loop reads none, and the audio features that
  carry them are passed through unread.
\<close>

datatype json =
    JNull
  | JBool bool
  | JInt int
  | JStr string
  | JList "json list"
  | JObj "(string \<times> json) list"

type_synonym dict = "(string \<times> json) list"

text \<open>
  The classes of \<^verbatim>\<open>Exception\<close> the program can meet. All of them derive from
  \<^verbatim>\<open>Exception\<close>, and none but itself from \<^verbatim>\<open>SpotifyException\<close> or from
  \<^verbatim>\<open>ConnectionError\<close>; \<^verbatim>\<open>JSONDecodeError\<close> and \<^verbatim>\<open>UnicodeEncodeError\<close> are both
  kinds of \<^verbatim>\<open>ValueError\<close>, for which the program has no handler. So
  \<^verbatim>\<open>except Exception\<close> catches each and the named handlers catch exactly their own
  constructor.
\<close>

datatype exn =
    SpotifyException
  | ConnectionError
  | JSONDecodeError
  | KeyError
  | TypeError
  | IndexError
  | OverflowError
  | ValueError
  | UnicodeEncodeError
  | OtherException

text \<open>Sequencing of computations that may raise: the first exception wins.\<close>

definition andthen :: "exn + 'a \<Rightarrow> ('a \<Rightarrow> exn + 'b) \<Rightarrow> exn + 'b" where
  "andthen r f = (case r of Inl e \<Rightarrow> Inl e | Inr v \<Rightarrow> f v)"

text \<open>Truth value of a Python object (\<^verbatim>\<open>if x:\<close>).\<close>

fun truthy :: "json \<Rightarrow> bool" where
  "truthy JNull = False"
| "truthy (JBool b) = b"
| "truthy (JInt i) = (i \<noteq> 0)"
| "truthy (JStr s) = (s \<noteq> [])"
| "truthy (JList xs) = (xs \<noteq> [])"
| "truthy (JObj d) = (d \<noteq> [])"

text \<open>\<^verbatim>\<open>a or b\<close>: the first operand when it is truthy, the second otherwise.\<close>

definition py_or :: "json \<Rightarrow> json \<Rightarrow> json" where
  "py_or a b = (if truthy a then a else b)"

text \<open>\<^verbatim>\<open>x[k]\<close> for a string key \<open>k\<close>: only a dictionary can answer.\<close>

fun getitem :: "json \<Rightarrow> string \<Rightarrow> exn + json" where
  "getitem (JObj d) k = (case map_of d k of None \<Rightarrow> Inl KeyError | Some v \<Rightarrow> Inr v)"
| "getitem _ k = Inl TypeError"

text \<open>
  \<^verbatim>\<open>x[0]\<close>: the first element of a list, the first character of a string; a dictionary
  decoded from JSON has string keys only, so the key \<open>0\<close> is missing.
\<close>

fun getitem_0 :: "json \<Rightarrow> exn + json" where
  "getitem_0 (JList xs) = (case xs of [] \<Rightarrow> Inl IndexError | x # _ \<Rightarrow> Inr x)"
| "getitem_0 (JStr s) = (case s of [] \<Rightarrow> Inl IndexError | c # _ \<Rightarrow> Inr (JStr [c]))"
| "getitem_0 (JObj d) = Inl KeyError"
| "getitem_0 _ = Inl TypeError"

text \<open>\<^verbatim>\<open>x[k] = v\<close> for a string key: only a dictionary supports it.\<close>

fun setitem :: "json \<Rightarrow> string \<Rightarrow> json \<Rightarrow> exn + dict" where
  "setitem (JObj d) k v = Inr (AList.update k v d)"
| "setitem _ k v = Inl TypeError"

text \<open>\<^verbatim>\<open>d[k]\<close> on a value known to be a dictionary.\<close>

definition lookup :: "dict \<Rightarrow> string \<Rightarrow> exn + json" where
  "lookup d k = (case map_of d k of None \<Rightarrow> Inl KeyError | Some v \<Rightarrow> Inr v)"

text \<open>
  \<^verbatim>\<open>a == b\<close>. A boolean is the integer 0 or 1; lists are compared element by element;
  dictionaries are equal when they have the same keys with equal values, in any order.
\<close>

function py_eq :: "json \<Rightarrow> json \<Rightarrow> bool" where
  "py_eq JNull y = (y = JNull)"
| "py_eq (JBool a) y =
     (case y of JBool b \<Rightarrow> a = b | JInt j \<Rightarrow> (if a then 1 else 0) = j | _ \<Rightarrow> False)"
| "py_eq (JInt i) y =
     (case y of JBool b \<Rightarrow> i = (if b then 1 else 0) | JInt j \<Rightarrow> i = j | _ \<Rightarrow> False)"
| "py_eq (JStr s) y = (y = JStr s)"
| "py_eq (JList xs) y =
     (case y of JList ys \<Rightarrow> list_all2 py_eq xs ys | _ \<Rightarrow> False)"
| "py_eq (JObj d) y =
     (case y of
        JObj d' \<Rightarrow>
          list_all (\<lambda>p. case map_of d' (fst p) of None \<Rightarrow> False | Some v \<Rightarrow> py_eq (snd p) v) d
          \<and> list_all (\<lambda>p. map_of d (fst p) \<noteq> None) d'
      | _ \<Rightarrow> False)"
  by pat_completeness auto
termination
  by (relation "measure (\<lambda>(x, y). size x)") (auto simp: less_Suc_eq_le size_list_estimation')


section \<open>The world outside the process\<close>

text \<open>
  The remote service, the heartbeat sink, the credential exchange, the clock and the
  console are not part of the program. Their answers are scripts: functions of the number
  of the call (and, for the remote, of the session that asks), fixed for a run; of the
  console the world says which values have a text that the encoding of \<^verbatim>\<open>stdout\<close> can
  write. The counters and the trace of what the process did are the mutable part.
\<close>

text \<open>The \<^verbatim>\<open>aw_core.models.Event\<close> built for a heartbeat.\<close>

record event =
  timestamp :: int
  data :: dict

text \<open>
  The status lines. The format strings of the source are kept as constructors carrying
  the arguments of \<^verbatim>\<open>format\<close>: minutes, seconds, title, artist and album.
\<close>

datatype line =
    Token_expired
  | Track_ended int int json json json
  | Current_track int int json json json
  | Waiting

datatype action =
    Statusline line
  | Log_error string
  | Log_traceback exn
  | Log_debug_track json json json
  | Log_debug_episode json json
  | Print_exception exn
  | Slept real
  | Authenticated nat
  | Heartbeat string event real bool

record world =
  playback_reply :: "nat \<Rightarrow> nat \<Rightarrow> exn + json"
  features_reply :: "nat \<Rightarrow> nat \<Rightarrow> json \<Rightarrow> exn + json"
  heartbeat_reply :: "nat \<Rightarrow> exn option"
  auth_reply :: "nat \<Rightarrow> bool"
  clock :: "nat \<Rightarrow> int"
  stdout_encodes :: "json \<Rightarrow> bool"
  polls :: nat
  lookups :: nat
  beats :: nat
  auths :: nat
  trace :: "action list"

definition emit :: "action \<Rightarrow> world \<Rightarrow> world" where
  "emit a w = w\<lparr>trace := trace w @ [a]\<rparr>"

text \<open>
  \<^verbatim>\<open>time.sleep\<close> refuses a negative duration with \<^verbatim>\<open>ValueError\<close>. Durations beyond
  what the clock of the platform can count (centuries) are not considered.
\<close>

definition sleep :: "real \<Rightarrow> world \<Rightarrow> (exn + unit) \<times> world" where
  "sleep secs w = (if secs < 0 then (Inl ValueError, w) else (Inr (), emit (Slept secs) w))"

text \<open>The values whose text a status line shows besides the characters of its format.\<close>

fun line_values :: "line \<Rightarrow> json list" where
  "line_values Token_expired = []"
| "line_values (Track_ended m s title artist album) = [title, artist, album]"
| "line_values (Current_track m s title artist album) = [title, artist, album]"
| "line_values Waiting = []"

text \<open>
  \<^verbatim>\<open>print_statusline\<close> blanks the previous message with spaces and prints the new one.
  \<^verbatim>\<open>print(msg)\<close> raises \<^verbatim>\<open>UnicodeEncodeError\<close> when \<^verbatim>\<open>stdout\<close> cannot encode a
  character of the message, and then nothing of it counts as printed; the formats, the
  digits and the two fixed messages are plain ASCII, so only the title, the artist and the
  album can stand in the way. Only the new message is kept in the trace.
\<close>

definition print_statusline :: "line \<Rightarrow> world \<Rightarrow> (exn + unit) \<times> world" where
  "print_statusline msg w =
     (if list_all (stdout_encodes w) (line_values msg) then (Inr (), emit (Statusline msg) w)
      else (Inl UnicodeEncodeError, w))"

text \<open>
  \<^verbatim>\<open>auth\<close>: a new session (numbered by the attempt), or \<^verbatim>\<open>sys.exit(1)\<close> when the
  credential exchange raises \<^verbatim>\<open>SpotifyOauthError\<close> (the answer \<open>None\<close>).
\<close>

definition auth :: "world \<Rightarrow> nat option \<times> world" where
  "auth w =
     (let w1 = w\<lparr>auths := Suc (auths w)\<rparr>
      in if auth_reply w (auths w) then (Some (Suc (auths w)), emit (Authenticated (Suc (auths w))) w1)
         else (None, w1))"

section \<open>Polling and enrichment\<close>

text \<open>
  \<^verbatim>\<open>get_current_track\<close>: the answer of \<^verbatim>\<open>sp.currently_playing\<close> when it is truthy and its
  \<^verbatim>\<open>is_playing\<close> entry is truthy, \<^verbatim>\<open>None\<close> otherwise. An exception of the call, or of the
  subscript, leaves the function.
\<close>

definition get_current_track :: "nat \<Rightarrow> world \<Rightarrow> (exn + json option) \<times> world" where
  "get_current_track sp w =
     (let w1 = w\<lparr>polls := Suc (polls w)\<rparr>
      in case playback_reply w sp (polls w) of
           Inl e \<Rightarrow> (Inl e, w1)
         | Inr current_track \<Rightarrow>
             if truthy current_track then
               (case getitem current_track ''is_playing'' of
                  Inl e \<Rightarrow> (Inl e, w1)
                | Inr playing \<Rightarrow>
                    if truthy playing then (Inr (Some current_track), w1) else (Inr None, w1))
             else (Inr None, w1))"

text \<open>\<^verbatim>\<open>track["item"][k]\<close>.\<close>

definition item_field :: "json \<Rightarrow> string \<Rightarrow> exn + json" where
  "item_field track k = andthen (getitem track ''item'') (\<lambda>item. getitem item k)"

text \<open>
  The \<^verbatim>\<open>try\<close> block of \<^verbatim>\<open>data_from_track\<close>:
  \<^verbatim>\<open>data = sp.audio_features(track["item"]["id"])[0] or {}\<close>, with \<^verbatim>\<open>data = {}\<close> when
  \<^verbatim>\<open>SpotifyException\<close> is raised. Every other exception passes through.
\<close>

definition audio_data :: "json \<Rightarrow> nat \<Rightarrow> world \<Rightarrow> (exn + json) \<times> world" where
  "audio_data track sp w =
     (let (r, w1) =
            (case item_field track ''id'' of
               Inl e \<Rightarrow> (Inl e, w)
             | Inr track_id \<Rightarrow>
                 (andthen (features_reply w sp (lookups w) track_id)
                    (\<lambda>res. andthen (getitem_0 res) (\<lambda>f. Inr (py_or f (JObj [])))),
                  w\<lparr>lookups := Suc (lookups w)\<rparr>))
      in case r of
           Inl e \<Rightarrow> if e = SpotifyException then (Inr (JObj []), w1) else (Inl e, w1)
         | Inr d \<Rightarrow> (Inr d, w1))"

text \<open>
  The rest of \<^verbatim>\<open>data_from_track\<close>, which talks to nobody: the title and the URI, then the
  fields of a track or of an episode, and the debug line of the branch taken. An item of
  any other type gets the title and the URI only.
\<close>

definition fill_data :: "json \<Rightarrow> json \<Rightarrow> json \<Rightarrow> exn + dict \<times> action option" where
  "fill_data track song_name data0 =
     andthen (setitem data0 ''title'' song_name) (\<lambda>d1.
     andthen (item_field track ''uri'') (\<lambda>uri.
     let d2 = AList.update ''uri'' uri d1 in
     andthen (item_field track ''type'') (\<lambda>ty.
       if py_eq ty (JStr ''track'') then
         andthen (item_field track ''artists'') (\<lambda>artists.
         andthen (getitem_0 artists) (\<lambda>artist0.
         andthen (getitem artist0 ''name'') (\<lambda>artist_name.
         andthen (item_field track ''album'') (\<lambda>album.
         andthen (getitem album ''name'') (\<lambda>album_name.
         andthen (item_field track ''popularity'') (\<lambda>popularity.
           Inr (AList.update ''artist'' artist_name
                  (AList.update ''album'' album_name
                     (AList.update ''popularity'' (py_or popularity (JInt (- 1))) d2)),
                Some (Log_debug_track song_name artist_name album_name))))))))
       else if py_eq ty (JStr ''episode'') then
         andthen (item_field track ''show'') (\<lambda>show.
         andthen (getitem show ''publisher'') (\<lambda>publisher.
         let d3 = AList.update ''artist'' publisher d2 in
         andthen (item_field track ''show'') (\<lambda>show'.
         andthen (getitem show' ''name'') (\<lambda>show_name.
           Inr (AList.update ''album'' show_name d3,
                Some (Log_debug_episode song_name publisher))))))
       else Inr (d2, None))))"

definition data_from_track :: "json \<Rightarrow> nat \<Rightarrow> world \<Rightarrow> (exn + dict) \<times> world" where
  "data_from_track track sp w =
     (case item_field track ''name'' of
        Inl e \<Rightarrow> (Inl e, w)
      | Inr song_name \<Rightarrow>
          (case audio_data track sp w of
             (Inl e, w1) \<Rightarrow> (Inl e, w1)
           | (Inr data0, w1) \<Rightarrow>
               (case fill_data track song_name data0 of
                  Inl e \<Rightarrow> (Inl e, w1)
                | Inr (d, None) \<Rightarrow> (Inr d, w1)
                | Inr (d, Some dbg) \<Rightarrow> (Inr d, emit dbg w1))))"


section \<open>The loop of \<^verbatim>\<open>main\<close>\<close>

text \<open>
  The variables the loop keeps from one iteration to the next: the session \<^verbatim>\<open>sp\<close> and
  \<^verbatim>\<open>last_track\<close>. (\<^verbatim>\<open>track\<close> is assigned by every successful poll before it is read.)
\<close>

record state =
  sp :: nat
  last_track :: "json option"

text \<open>\<^verbatim>\<open>if x:\<close> for a variable that holds \<^verbatim>\<open>None\<close> or a decoded answer.\<close>

definition present :: "json option \<Rightarrow> bool" where
  "present x = (case x of None \<Rightarrow> False | Some t \<Rightarrow> truthy t)"

text \<open>
  \<^verbatim>\<open>timedelta(seconds=ms / 1000).seconds\<close>: the seconds within the day, after
  \<^verbatim>\<open>timedelta\<close> has normalised the duration; more than 999999999 days either way is an
  \<^verbatim>\<open>OverflowError\<close>. The division is taken as exact.
\<close>

definition timedelta_seconds :: "json \<Rightarrow> exn + int" where
  "timedelta_seconds p =
     andthen (case p of JInt ms \<Rightarrow> Inr ms | JBool b \<Rightarrow> Inr (if b then 1 else 0) | _ \<Rightarrow> Inl TypeError)
       (\<lambda>ms. if ms div 86400000 < - 999999999 \<or> 999999999 < ms div 86400000
              then Inl OverflowError
              else Inr ((ms div 1000) mod 86400))"

text \<open>\<^verbatim>\<open>song_time\<close> of a playback answer: minutes and seconds of its \<^verbatim>\<open>progress_ms\<close>.\<close>

definition song_time :: "json \<Rightarrow> exn + int \<times> int" where
  "song_time t =
     andthen (getitem t ''progress_ms'') (\<lambda>p.
     andthen (timedelta_seconds p) (\<lambda>secs. Inr (secs div 60, secs mod 60)))"

text \<open>The named fields a status line takes from the enriched data, in the order of the format.\<close>

definition format_fields :: "dict \<Rightarrow> exn + json \<times> json \<times> json" where
  "format_fields d =
     andthen (lookup d ''title'') (\<lambda>title.
     andthen (lookup d ''artist'') (\<lambda>artist.
     andthen (lookup d ''album'') (\<lambda>album. Inr (title, artist, album))))"

text \<open>
  The condition of the track-ended report:
  \<^verbatim>\<open>not track or (track and last_track_data["uri"] != data_from_track(track, sp)["uri"])\<close>.
\<close>

definition changed :: "dict \<Rightarrow> json option \<Rightarrow> state \<Rightarrow> world \<Rightarrow> (exn + bool) \<times> world" where
  "changed last_track_data track st w =
     (if \<not> present track then (Inr True, w)
      else case track of
             None \<Rightarrow> (Inr True, w)
           | Some t \<Rightarrow>
               (case lookup last_track_data ''uri'' of
                  Inl e \<Rightarrow> (Inl e, w)
                | Inr uri \<Rightarrow>
                    (case data_from_track t (sp st) w of
                       (Inl e, w1) \<Rightarrow> (Inl e, w1)
                     | (Inr track_data, w1) \<Rightarrow>
                         (case lookup track_data ''uri'' of
                            Inl e \<Rightarrow> (Inl e, w1)
                          | Inr uri' \<Rightarrow> (Inr (\<not> py_eq uri uri'), w1)))))"

text \<open>
  The first statement of the second \<^verbatim>\<open>try\<close> block: the line of a track that ended. An
  exception of the enrichment, of the arithmetic, of \<^verbatim>\<open>format\<close> or of the print leaves it.
\<close>

definition report_ended :: "state \<Rightarrow> json option \<Rightarrow> world \<Rightarrow> (exn + unit) \<times> world" where
  "report_ended st track w =
     (if \<not> present (last_track st) then (Inr (), w)
      else case last_track st of
             None \<Rightarrow> (Inr (), w)
           | Some lt \<Rightarrow>
               (case data_from_track lt (sp st) w of
                  (Inl e, w1) \<Rightarrow> (Inl e, w1)
                | (Inr last_track_data, w1) \<Rightarrow>
                    (case changed last_track_data track st w1 of
                       (Inl e, w2) \<Rightarrow> (Inl e, w2)
                     | (Inr False, w2) \<Rightarrow> (Inr (), w2)
                     | (Inr True, w2) \<Rightarrow>
                         (case andthen (song_time lt) (\<lambda>(m, s).
                               andthen (format_fields last_track_data) (\<lambda>(title, artist, album).
                                 Inr (Track_ended m s title artist album))) of
                            Inl e \<Rightarrow> (Inl e, w2)
                          | Inr msg \<Rightarrow> print_statusline msg w2))))"

text \<open>
  The second statement: the line and the heartbeat of the track that plays, or the
  waiting line. The line is printed before the heartbeat is built, so a print that raises
  leaves no heartbeat. The heartbeat is in the trace once \<^verbatim>\<open>aw.heartbeat\<close> is called,
  whether the call then raises or not.
\<close>

definition report_current ::
    "string \<Rightarrow> real \<Rightarrow> state \<Rightarrow> json option \<Rightarrow> world \<Rightarrow> (exn + unit) \<times> world" where
  "report_current bucketname poll_time st track w =
     (if \<not> present track then print_statusline Waiting w
      else case track of
             None \<Rightarrow> print_statusline Waiting w
           | Some t \<Rightarrow>
               (case data_from_track t (sp st) w of
                  (Inl e, w1) \<Rightarrow> (Inl e, w1)
                | (Inr track_data, w1) \<Rightarrow>
                    (case andthen (song_time t) (\<lambda>(m, s).
                          andthen (format_fields track_data) (\<lambda>(title, artist, album).
                            Inr (Current_track m s title artist album))) of
                       Inl e \<Rightarrow> (Inl e, w1)
                     | Inr msg \<Rightarrow>
                         (case print_statusline msg w1 of
                            (Inl e, w2) \<Rightarrow> (Inl e, w2)
                          | (Inr _, w2) \<Rightarrow>
                              (let ev = \<lparr>timestamp = clock w2 (beats w2), data = track_data\<rparr>;
                                   w3 = emit (Heartbeat bucketname ev (poll_time + 1) True)
                                          (w2\<lparr>beats := Suc (beats w2)\<rparr>)
                               in case heartbeat_reply w2 (beats w2) of
                                    None \<Rightarrow> (Inr (), w3)
                                  | Some e \<Rightarrow> (Inl e, w3))))))"

text \<open>
  The body of the second \<^verbatim>\<open>try\<close> block: both reports, then \<^verbatim>\<open>last_track = track\<close>.
  An exception leaves before the assignment.
\<close>

definition tracker ::
    "string \<Rightarrow> real \<Rightarrow> state \<Rightarrow> json option \<Rightarrow> world \<Rightarrow> (exn + state) \<times> world" where
  "tracker bucketname poll_time st track w =
     (case report_ended st track w of
        (Inl e, w1) \<Rightarrow> (Inl e, w1)
      | (Inr _, w1) \<Rightarrow>
          (case report_current bucketname poll_time st track w1 of
             (Inl e, w2) \<Rightarrow> (Inl e, w2)
           | (Inr _, w2) \<Rightarrow> (Inr (st\<lparr>last_track := track\<rparr>), w2)))"

text \<open>
  How an iteration ends: the loop goes on with a state, an exception left the loop, or
  the process exited with a status.
\<close>

datatype outcome =
    Running state world
  | Raised exn world
  | Exited nat world

text \<open>A \<^verbatim>\<open>sleep\<close> followed by the next iteration.\<close>

definition sleep_then :: "real \<Rightarrow> state \<Rightarrow> world \<Rightarrow> outcome" where
  "sleep_then secs st w =
     (case sleep secs w of (Inl e, w1) \<Rightarrow> Raised e w1 | (Inr _, w1) \<Rightarrow> Running st w1)"

text \<open>
  One iteration of \<^verbatim>\<open>while True\<close>: the poll with its four handlers, then the tracker.
  An exception raised inside a handler is caught by none of its siblings and leaves the loop.
  The message of an exception that the last handler prints is taken to be printable.
\<close>

definition cycle :: "string \<Rightarrow> real \<Rightarrow> state \<Rightarrow> world \<Rightarrow> outcome" where
  "cycle bucketname poll_time st w =
     (case get_current_track (sp st) w of
        (Inl e, w1) \<Rightarrow>
          if e = SpotifyException then
            (case print_statusline Token_expired w1 of
               (Inl e', w2) \<Rightarrow> Raised e' w2
             | (Inr _, w2) \<Rightarrow>
                 (case auth w2 of
                    (None, w3) \<Rightarrow> Exited 1 w3
                  | (Some s, w3) \<Rightarrow> Running (st\<lparr>sp := s\<rparr>) w3))
          else if e = ConnectionError then
            sleep_then poll_time st
              (emit (Log_error ''Connection error while trying to get track, check your internet connection.'') w1)
          else if e = JSONDecodeError then
            sleep_then 0.1 st (emit (Log_error ''Error trying to decode'') w1)
          else
            sleep_then 0.1 st (emit (Log_traceback e) (emit (Log_error ''Unknown Error'') w1))
      | (Inr track, w1) \<Rightarrow>
          (case tracker bucketname poll_time st track w1 of
             (Inl e, w2) \<Rightarrow> sleep_then poll_time st (emit (Print_exception e) w2)
           | (Inr st', w2) \<Rightarrow> sleep_then poll_time st' w2))"

text \<open>The first \<open>n\<close> iterations of the loop.\<close>

fun main_loop :: "string \<Rightarrow> real \<Rightarrow> nat \<Rightarrow> state \<Rightarrow> world \<Rightarrow> outcome" where
  "main_loop bucketname poll_time 0 st w = Running st w"
| "main_loop bucketname poll_time (Suc n) st w =
     (case cycle bucketname poll_time st w of
        Running st' w' \<Rightarrow> main_loop bucketname poll_time n st' w'
      | Raised e w' \<Rightarrow> Raised e w'
      | Exited c w' \<Rightarrow> Exited c w')"

text \<open>
  \<^verbatim>\<open>main\<close> from the first authentication on (the configuration and the bucket are given):
  \<^verbatim>\<open>sp = auth(...)\<close>, \<^verbatim>\<open>last_track = None\<close>, then the loop.
\<close>

definition main :: "string \<Rightarrow> real \<Rightarrow> nat \<Rightarrow> world \<Rightarrow> outcome" where
  "main bucketname poll_time n w =
     (case auth w of
        (None, w1) \<Rightarrow> Exited 1 w1
      | (Some s, w1) \<Rightarrow> main_loop bucketname poll_time n \<lparr>sp = s, last_track = None\<rparr> w1)"

section \<open>Reading a run\<close>

text \<open>The world an iteration leaves behind, however it ended, and the state it hands on.\<close>

fun world_of :: "outcome \<Rightarrow> world" where
  "world_of (Running st w) = w"
| "world_of (Raised e w) = w"
| "world_of (Exited c w) = w"

fun state_of :: "outcome \<Rightarrow> state option" where
  "state_of (Running st w) = Some st"
| "state_of (Raised e w) = None"
| "state_of (Exited c w) = None"

text \<open>The actions recorded between two worlds, and those of one iteration.\<close>

definition since :: "world \<Rightarrow> world \<Rightarrow> action list" where
  "since w w' = drop (length (trace w)) (trace w')"

definition actions :: "string \<Rightarrow> real \<Rightarrow> state \<Rightarrow> world \<Rightarrow> action list" where
  "actions b p st w = since w (world_of (cycle b p st w))"

definition is_heartbeat :: "action \<Rightarrow> bool" where
  "is_heartbeat a = (case a of Heartbeat _ _ _ _ \<Rightarrow> True | _ \<Rightarrow> False)"

definition is_track_ended :: "action \<Rightarrow> bool" where
  "is_track_ended a = (case a of Statusline (Track_ended _ _ _ _ _) \<Rightarrow> True | _ \<Rightarrow> False)"

definition is_debug :: "action \<Rightarrow> bool" where
  "is_debug a = (case a of Log_debug_track _ _ _ \<Rightarrow> True | Log_debug_episode _ _ \<Rightarrow> True | _ \<Rightarrow> False)"

text \<open>Bucket, timestamp, pulsetime and queueing flag of the heartbeats of a trace, in order.\<close>

fun stamps :: "action list \<Rightarrow> (string \<times> int \<times> real \<times> bool) list" where
  "stamps [] = []"
| "stamps (Heartbeat b ev pulsetime queued # xs) = (b, timestamp ev, pulsetime, queued) # stamps xs"
| "stamps (_ # xs) = stamps xs"

text \<open>
  \<open>steps w w' xs\<close>: the process went from \<open>w\<close> to \<open>w'\<close> doing \<open>xs\<close>. The scripts of
  the outside are untouched, the trace grew by \<open>xs\<close>, and the heartbeat counter by the
  heartbeats among them.
\<close>

definition steps :: "world \<Rightarrow> world \<Rightarrow> action list \<Rightarrow> bool" where
  "steps w w' xs \<longleftrightarrow>
     playback_reply w' = playback_reply w \<and> features_reply w' = features_reply w \<and>
     heartbeat_reply w' = heartbeat_reply w \<and> auth_reply w' = auth_reply w \<and> clock w' = clock w \<and>
     stdout_encodes w' = stdout_encodes w \<and>
     beats w' = beats w + length (filter is_heartbeat xs) \<and>
     trace w' = trace w @ xs"

section \<open>The conditions of the specification\<close>

text \<open>
  The specification's condition for a track-ended line: the remembered item is present, and
  the polled item is absent or its identifier (the URI) is another one.
\<close>

definition uri_differs :: "json \<Rightarrow> json \<Rightarrow> bool" where
  "uri_differs lt t =
     (case item_field lt ''uri'' of
        Inl _ \<Rightarrow> False
      | Inr u \<Rightarrow> (case item_field t ''uri'' of Inl _ \<Rightarrow> False | Inr u' \<Rightarrow> \<not> py_eq u u'))"

definition ended_expected :: "json option \<Rightarrow> json option \<Rightarrow> bool" where
  "ended_expected prev cur =
     (case prev of
        None \<Rightarrow> False
      | Some lt \<Rightarrow>
          truthy lt \<and> (\<not> present cur \<or> (case cur of None \<Rightarrow> False | Some t \<Rightarrow> uri_differs lt t)))"










section \<open>Example answers of the remote\<close>

text \<open>
  A playing track with the given URI, name, progress and entries of popularity (none, or
  one value), and a playing episode.
\<close>

definition playing_track :: "string \<Rightarrow> string \<Rightarrow> int \<Rightarrow> (string \<times> json) list \<Rightarrow> json" where
  "playing_track uri name ms popularity =
     JObj [(''is_playing'', JBool True), (''progress_ms'', JInt ms),
           (''item'',
            JObj ([(''name'', JStr name), (''id'', JStr uri), (''uri'', JStr uri),
                   (''type'', JStr ''track''),
                   (''artists'', JList [JObj [(''name'', JStr ''Band'')]]),
                   (''album'', JObj [(''name'', JStr ''LP'')])] @ popularity))]"

definition track_a :: json where
  "track_a = playing_track ''spotify:track:T1'' ''Song A'' 10000 [(''popularity'', JInt 0)]"

definition track_b :: json where
  "track_b = playing_track ''spotify:track:T2'' ''Song B'' 500 [(''popularity'', JInt 7)]"




definition paused_a :: json where
  "paused_a = JObj [(''is_playing'', JBool False), (''progress_ms'', JInt 10000)]"

text \<open>
  A world whose remote gives the same answer to every poll and to every audio-feature
  lookup, whose sink gives the same answer to every heartbeat, whose clock shows 1000,
  1001, ... and whose console can write every text; one session has been opened.
\<close>

definition scripted :: "exn + json \<Rightarrow> exn + json \<Rightarrow> exn option \<Rightarrow> world" where
  "scripted play feat beat =
     \<lparr>playback_reply = (\<lambda>s n. play), features_reply = (\<lambda>s n i. feat),
      heartbeat_reply = (\<lambda>n. beat), auth_reply = (\<lambda>n. True), clock = (\<lambda>n. 1000 + int n),
      stdout_encodes = (\<lambda>v. True), polls = 0, lookups = 0, beats = 0, auths = 1, trace = []\<rparr>"


definition ascii_text :: "json \<Rightarrow> bool" where
  "ascii_text v = (case v of JStr s \<Rightarrow> list_all (\<lambda>c. (of_char c :: nat) < 128) s | _ \<Rightarrow> True)"

definition track_accent :: json where
  "track_accent =
     playing_track ''spotify:track:T5'' (''Caf'' @ [char_of (233 :: nat)]) 2000
       [(''popularity'', JInt 40)]"

definition ascii_console :: "exn + json \<Rightarrow> exn + json \<Rightarrow> world" where
  "ascii_console play feat = (scripted play feat None)\<lparr>stdout_encodes := ascii_text\<rparr>"

definition idle :: state where
  "idle = \<lparr>sp = 1, last_track = None\<rparr>"

definition after :: "json \<Rightarrow> state" where
  "after t = \<lparr>sp = 1, last_track = Some t\<rparr>"

section \<open>Properties\<close>

subsection \<open>Sequencing, dictionaries and the trace\<close>

text \<open>Two ways to name the rest of a result that has been computed in part.\<close>

lemma with_snd: "fst p = a \<Longrightarrow> p = (a, snd p)"
  by (cases p) simp

lemma running_with_world: "state_of out = Some st \<Longrightarrow> out = Running st (world_of out)"
  by (cases out) simp_all

lemma andthen_Inl [simp]: "andthen (Inl e) f = Inl e"
  by (simp add: andthen_def)

lemma andthen_Inr [simp]: "andthen (Inr v) f = f v"
  by (simp add: andthen_def)

lemma andthen_eq_Inr: "andthen r f = Inr y \<longleftrightarrow> (\<exists>v. r = Inr v \<and> f v = Inr y)"
  by (cases r) simp_all

lemma py_eq_JStr [simp]: "py_eq x (JStr s) \<longleftrightarrow> x = JStr s"
  by (cases x) auto

lemma lookup_update: "lookup (AList.update k v d) k' = (if k' = k then Inr v else lookup d k')"
  by (simp add: lookup_def update_conv')

lemma emit_fields [simp]:
  "trace (emit a w) = trace w @ [a]"
  "polls (emit a w) = polls w"
  "lookups (emit a w) = lookups w"
  "beats (emit a w) = beats w"
  "auths (emit a w) = auths w"
  "playback_reply (emit a w) = playback_reply w"
  "features_reply (emit a w) = features_reply w"
  "heartbeat_reply (emit a w) = heartbeat_reply w"
  "auth_reply (emit a w) = auth_reply w"
  "clock (emit a w) = clock w"
  "stdout_encodes (emit a w) = stdout_encodes w"
  by (simp_all add: emit_def)

lemma print_statusline_cases:
  assumes "print_statusline msg w = (r, w')"
  shows "(r = Inr () \<and> w' = emit (Statusline msg) w) \<or> (r = Inl UnicodeEncodeError \<and> w' = w)"
  using assms by (auto simp: print_statusline_def split: if_splits)

subsection \<open>Enrichment\<close>

text \<open>What an enrichment that returns has put into the data.\<close>

lemma fill_data_common:
  assumes "fill_data track nm data0 = Inr (d, dbg)"
  shows "lookup d ''title'' = Inr nm" and "lookup d ''uri'' = item_field track ''uri''"
    and "\<exists>d0. data0 = JObj d0"
  using assms
  by (cases data0; auto simp: fill_data_def andthen_eq_Inr lookup_update Let_def split: if_splits)+

lemma steps_refl: "steps w w []"
  by (simp add: steps_def)

lemma steps_trans: "steps w w1 xs \<Longrightarrow> steps w1 w2 ys \<Longrightarrow> steps w w2 (xs @ ys)"
  by (simp add: steps_def)

lemma steps_emit: "\<not> is_heartbeat a \<Longrightarrow> steps w (emit a w) [a]"
  by (simp add: steps_def)

lemma debug_not_heartbeat: "is_debug a \<Longrightarrow> \<not> is_heartbeat a"
  by (cases a) (simp_all add: is_debug_def is_heartbeat_def)

lemma debug_not_ended: "is_debug a \<Longrightarrow> \<not> is_track_ended a"
  by (cases a) (simp_all add: is_debug_def is_track_ended_def)

lemma audio_data_steps: "audio_data track s w = (r, w') \<Longrightarrow> steps w w' []"
  by (auto simp: audio_data_def steps_def split: sum.splits if_splits)

lemma fill_data_debug: "fill_data track nm data0 = Inr (d, Some a) \<Longrightarrow> is_debug a"
  by (cases data0)
    (auto simp: fill_data_def andthen_eq_Inr Let_def is_debug_def split: if_splits)

lemma data_from_track_steps:
  assumes "data_from_track track s w = (r, w')"
  shows "\<exists>ds. steps w w' ds \<and> list_all is_debug ds"
proof (cases "item_field track ''name''")
  case (Inl e)
  with assms have "w' = w" by (simp add: data_from_track_def)
  then show ?thesis using steps_refl by fastforce
next
  case name: (Inr nm)
  obtain r1 w1 where a: "audio_data track s w = (r1, w1)" by fastforce
  then have s1: "steps w w1 []" by (rule audio_data_steps)
  show ?thesis
  proof (cases r1)
    case (Inl e)
    with assms name a have "w' = w1" by (simp add: data_from_track_def)
    with s1 show ?thesis by fastforce
  next
    case data0: (Inr data0)
    show ?thesis
    proof (cases "fill_data track nm data0")
      case (Inl e)
      with assms name a data0 have "w' = w1" by (simp add: data_from_track_def)
      with s1 show ?thesis by fastforce
    next
      case (Inr p)
      obtain d dbg where p: "p = (d, dbg)" by fastforce
      show ?thesis
      proof (cases dbg)
        case None
        with assms name a data0 Inr p have "w' = w1" by (simp add: data_from_track_def)
        with s1 show ?thesis by fastforce
      next
        case (Some x)
        with assms name a data0 Inr p have w': "w' = emit x w1" by (simp add: data_from_track_def)
        from Some Inr p have dbg: "is_debug x" using fill_data_debug by blast
        then have "steps w1 w' [x]" using w' steps_emit debug_not_heartbeat by blast
        with s1 have "steps w w' ([] @ [x])" by (rule steps_trans)
        with dbg show ?thesis by fastforce
      qed
    qed
  qed
qed

lemma data_from_track_Inr:
  assumes "data_from_track track s w = (Inr d, w')"
  shows "\<exists>nm data0 w1 dbg. item_field track ''name'' = Inr nm \<and>
            audio_data track s w = (Inr data0, w1) \<and> fill_data track nm data0 = Inr (d, dbg)"
  using assms
  by (auto simp: data_from_track_def split: sum.splits prod.splits option.splits)

lemma fill_data_track:
  assumes "fill_data track nm data0 = Inr (d, dbg)"
      and "item_field track ''type'' = Inr (JStr ''track'')"
  shows "\<exists>artists artist0 artist album album_name popularity.
           item_field track ''artists'' = Inr artists \<and> getitem_0 artists = Inr artist0 \<and>
           getitem artist0 ''name'' = Inr artist \<and> item_field track ''album'' = Inr album \<and>
           getitem album ''name'' = Inr album_name \<and>
           item_field track ''popularity'' = Inr popularity \<and>
           lookup d ''artist'' = Inr artist \<and> lookup d ''album'' = Inr album_name \<and>
           lookup d ''popularity'' = Inr (py_or popularity (JInt (- 1)))"
  using assms
  by (cases data0) (auto simp: fill_data_def andthen_eq_Inr lookup_update Let_def)





text \<open>
  Claim C9. For a track, whenever \<^verbatim>\<open>data_from_track\<close> returns, the popularity of the data
  is truthy: it is the remote's value when that is truthy and \<open>- 1\<close> for every falsy one,
  the integer 0 in particular, and so it is never 0.
\<close>

theorem track_popularity_never_zero:
  assumes "data_from_track track s w = (Inr d, w')"
      and "item_field track ''type'' = Inr (JStr ''track'')"
  shows "\<exists>popularity v. item_field track ''popularity'' = Inr popularity \<and>
           lookup d ''popularity'' = Inr v \<and> truthy v \<and> v \<noteq> JInt 0 \<and>
           (\<not> truthy popularity \<longrightarrow> v = JInt (- 1)) \<and>
           (popularity = JInt 0 \<longrightarrow> v = JInt (- 1)) \<and>
           (truthy popularity \<longrightarrow> v = popularity)"
proof -
  from assms(1) obtain nm data0 dbg where
    fd: "fill_data track nm data0 = Inr (d, dbg)"
    using data_from_track_Inr by blast
  from fill_data_track [OF fd assms(2)] obtain popularity where
    p: "item_field track ''popularity'' = Inr popularity"
       "lookup d ''popularity'' = Inr (py_or popularity (JInt (- 1)))"
    by blast
  have "truthy (py_or popularity (JInt (- 1)))" by (simp add: py_or_def)
  moreover have "py_or popularity (JInt (- 1)) \<noteq> JInt 0" by (auto simp: py_or_def)
  ultimately show ?thesis using p by (auto simp: py_or_def)
qed

text \<open>The theorem above on an example.\<close>

theorem track_popularity_never_zero_witness:
  "item_field track_a ''popularity'' = Inr (JInt 0) \<and>
   (\<exists>d. fst (data_from_track track_a 1 (scripted (Inr track_a) (Inr (JList [JNull])) None)) = Inr d \<and>
        lookup d ''popularity'' = Inr (JInt (- 1)))"
proof -
  let ?W = "scripted (Inr track_a) (Inr (JList [JNull])) None"
  let ?D = "[(''title'', JStr ''Song A''), (''uri'', JStr ''spotify:track:T1''),
          (''popularity'', JInt (- 1)), (''album'', JStr ''LP''), (''artist'', JStr ''Band'')]"
  have f: "fst (data_from_track track_a 1 ?W) = Inr ?D" by code_simp
  then have h: "data_from_track track_a 1 ?W = (Inr ?D, snd (data_from_track track_a 1 ?W))"
    by (rule with_snd)
  have t: "item_field track_a ''type'' = Inr (JStr ''track'')"
    and p: "item_field track_a ''popularity'' = Inr (JInt 0)"
    by code_simp+
  from track_popularity_never_zero [OF h t] p
  have "lookup ?D ''popularity'' = Inr (JInt (- 1))" by auto
  with f p show ?thesis by blast
qed

subsection \<open>The two reports of the tracker\<close>

lemma data_from_track_uri:
  "data_from_track track s w = (Inr d, w') \<Longrightarrow> lookup d ''uri'' = item_field track ''uri''"
  using data_from_track_Inr fill_data_common(2) by blast


lemma changed_steps:
  assumes "changed ltd track st w = (r, w')"
  shows "\<exists>ds. steps w w' ds \<and> list_all is_debug ds"
proof (cases "present track")
  case False
  with assms have "w' = w" by (simp add: changed_def)
  then show ?thesis using steps_refl by fastforce
next
  case True
  then obtain t where t: "track = Some t" by (auto simp: present_def split: option.splits)
  show ?thesis
  proof (cases "lookup ltd ''uri''")
    case (Inl e)
    with assms True t have "w' = w" by (simp add: changed_def)
    then show ?thesis using steps_refl by fastforce
  next
    case (Inr u)
    obtain r1 w1 where d: "data_from_track t (sp st) w = (r1, w1)" by fastforce
    with assms True t Inr have "w' = w1"
      by (auto simp: changed_def split: sum.splits)
    with data_from_track_steps [OF d] show ?thesis by simp
  qed
qed

lemma changed_value:
  assumes "changed ltd track st w = (Inr b, w')"
      and "lookup ltd ''uri'' = item_field lt ''uri''"
  shows "b \<longleftrightarrow> \<not> present track \<or> (case track of None \<Rightarrow> False | Some t \<Rightarrow> uri_differs lt t)"
proof (cases "present track")
  case False
  with assms show ?thesis by (simp add: changed_def)
next
  case True
  then obtain t where t: "track = Some t" by (auto simp: present_def split: option.splits)
  from assms(1) True t obtain u d w1 u' where
    u: "lookup ltd ''uri'' = Inr u" and d: "data_from_track t (sp st) w = (Inr d, w1)" and
    u': "lookup d ''uri'' = Inr u'" and b: "b = (\<not> py_eq u u')"
    by (auto simp: changed_def split: sum.splits prod.splits)
  from d u' have "item_field t ''uri'' = Inr u'" using data_from_track_uri by fastforce
  with u assms(2) b True t show ?thesis by (simp add: uri_differs_def)
qed

lemma report_ended_spec:
  assumes "report_ended st track w = (r, w')"
  shows "\<exists>ds es. steps w w' (ds @ es) \<and> list_all is_debug ds \<and>
           (case r of
              Inl e \<Rightarrow> es = []
            | Inr _ \<Rightarrow>
                if ended_expected (last_track st) track
                then \<exists>lt ltd w1 m s title artist album.
                       last_track st = Some lt \<and> data_from_track lt (sp st) w = (Inr ltd, w1) \<and>
                       song_time lt = Inr (m, s) \<and> format_fields ltd = Inr (title, artist, album) \<and>
                       es = [Statusline (Track_ended m s title artist album)]
                else es = [])"
proof (cases "present (last_track st)")
  case False
  with assms have "w' = w" "r = Inr ()" by (auto simp: report_ended_def)
  moreover from False have "\<not> ended_expected (last_track st) track"
    by (simp add: ended_expected_def present_def split: option.splits)
  ultimately show ?thesis using steps_refl by fastforce
next
  case True
  then obtain lt where lt: "last_track st = Some lt" and tlt: "truthy lt"
    by (auto simp: present_def split: option.splits)
  obtain r1 w1 where d: "data_from_track lt (sp st) w = (r1, w1)" by fastforce
  from data_from_track_steps [OF d] obtain ds1 where
    s1: "steps w w1 ds1" and dbg1: "list_all is_debug ds1" by blast
  show ?thesis
  proof (cases r1)
    case (Inl e)
    with assms True lt d have "w' = w1" "r = Inl e" by (auto simp: report_ended_def)
    with s1 dbg1 show ?thesis by fastforce
  next
    case ltd: (Inr ltd)
    obtain r2 w2 where c: "changed ltd track st w1 = (r2, w2)" by fastforce
    from changed_steps [OF c] obtain ds2 where
      s2: "steps w1 w2 ds2" and dbg2: "list_all is_debug ds2" by blast
    from s1 s2 have s12: "steps w w2 (ds1 @ ds2)" by (rule steps_trans)
    from dbg1 dbg2 have dbg12: "list_all is_debug (ds1 @ ds2)" by simp
    show ?thesis
    proof (cases r2)
      case (Inl e)
      with assms True lt d ltd c have "w' = w2" "r = Inl e" by (auto simp: report_ended_def)
      with s12 dbg12 show ?thesis by fastforce
    next
      case b: (Inr b)
      from d ltd have uri: "lookup ltd ''uri'' = item_field lt ''uri''"
        using data_from_track_uri by blast
      from c b uri have bval: "b \<longleftrightarrow> ended_expected (last_track st) track"
        using changed_value [of ltd track st w1 b w2 lt] lt tlt
        by (simp add: ended_expected_def)
      show ?thesis
      proof (cases b)
        case False
        with assms True lt d ltd c b have "w' = w2" "r = Inr ()"
          by (auto simp: report_ended_def)
        with s12 dbg12 bval False show ?thesis by fastforce
      next
        case tb: True
        show ?thesis
        proof (cases "song_time lt")
          case (Inl e)
          with assms True lt d ltd c b tb have "w' = w2" "r = Inl e"
            by (auto simp: report_ended_def)
          with s12 dbg12 show ?thesis by fastforce
        next
          case st: (Inr ms)
          obtain m s where ms: "ms = (m, s)" by fastforce
          show ?thesis
          proof (cases "format_fields ltd")
            case (Inl e)
            with assms True lt d ltd c b tb st ms have "w' = w2" "r = Inl e"
              by (auto simp: report_ended_def)
            with s12 dbg12 show ?thesis by fastforce
          next
            case (Inr f)
            obtain title artist album where f: "f = (title, artist, album)"
              by (cases f) auto
            let ?a = "Statusline (Track_ended m s title artist album)"
            from assms True lt d ltd c b tb st ms Inr f
            have pr: "print_statusline (Track_ended m s title artist album) w2 = (r, w')"
              by (auto simp: report_ended_def)
            from print_statusline_cases [OF pr] show ?thesis
            proof
              assume "r = Inr () \<and> w' = emit ?a w2"
              then have w': "w' = emit ?a w2" and r: "r = Inr ()" by simp_all
              have "steps w2 w' [?a]" unfolding w'
                by (rule steps_emit) (simp add: is_heartbeat_def)
              with s12 have "steps w w' ((ds1 @ ds2) @ [?a])" by (rule steps_trans)
              with dbg12 r bval tb lt d ltd st ms Inr f show ?thesis by fastforce
            next
              assume "r = Inl UnicodeEncodeError \<and> w' = w2"
              with s12 dbg12 show ?thesis by fastforce
            qed
          qed
        qed
      qed
    qed
  qed
qed

lemma report_current_spec:
  assumes "report_current b p st track w = (r, w')"
  shows "\<exists>ds es. steps w w' (ds @ es) \<and> list_all is_debug ds \<and>
           ((\<not> present track \<and> r = Inr () \<and> es = [Statusline Waiting]) \<or>
            (present track \<and> (\<exists>e. r = Inl e) \<and> es = []) \<or>
            (present track \<and>
             (\<exists>t d w1 m s title artist album.
                track = Some t \<and> data_from_track t (sp st) w = (Inr d, w1) \<and>
                song_time t = Inr (m, s) \<and> format_fields d = Inr (title, artist, album) \<and>
                es = [Statusline (Current_track m s title artist album),
                      Heartbeat b \<lparr>timestamp = clock w (beats w), data = d\<rparr> (p + 1) True] \<and>
                r = (case heartbeat_reply w (beats w) of None \<Rightarrow> Inr () | Some e \<Rightarrow> Inl e))))"
proof (cases "present track")
  case False
  with assms have w': "w' = emit (Statusline Waiting) w" and "r = Inr ()"
    by (auto simp: report_current_def print_statusline_def)
  moreover have "steps w w' ([] @ [Statusline Waiting])" unfolding w'
    using steps_emit [of "Statusline Waiting" w] by (simp add: is_heartbeat_def)
  ultimately show ?thesis using False by (intro exI [of _ "[]"] exI) auto
next
  case True
  then obtain t where t: "track = Some t" by (auto simp: present_def split: option.splits)
  obtain r1 w1 where d: "data_from_track t (sp st) w = (r1, w1)" by fastforce
  from data_from_track_steps [OF d] obtain ds where
    s1: "steps w w1 ds" and dbg: "list_all is_debug ds" by blast
  from dbg have nohb: "filter is_heartbeat ds = []"
    by (auto simp: filter_empty_conv list_all_iff dest: debug_not_heartbeat)
  show ?thesis
  proof (cases r1)
    case (Inl e)
    with assms True t d have "w' = w1" "r = Inl e" by (auto simp: report_current_def)
    with s1 dbg True show ?thesis by (intro exI [of _ ds] exI [of _ "[]"]) auto
  next
    case td: (Inr td)
    show ?thesis
    proof (cases "song_time t")
      case (Inl e)
      with assms True t d td have "w' = w1" "r = Inl e" by (auto simp: report_current_def)
      with s1 dbg True show ?thesis by (intro exI [of _ ds] exI [of _ "[]"]) auto
    next
      case st: (Inr ms)
      obtain m s where ms: "ms = (m, s)" by fastforce
      show ?thesis
      proof (cases "format_fields td")
        case (Inl e)
        with assms True t d td st ms have "w' = w1" "r = Inl e"
          by (auto simp: report_current_def)
        with s1 dbg True show ?thesis by (intro exI [of _ ds] exI [of _ "[]"]) auto
      next
        case (Inr f)
        obtain title artist album where f: "f = (title, artist, album)"
          by (cases f) auto
        let ?l = "Statusline (Current_track m s title artist album)"
        let ?h = "Heartbeat b \<lparr>timestamp = clock w (beats w), data = td\<rparr> (p + 1) True"
        from s1 nohb have same: "clock w1 = clock w" "beats w1 = beats w"
          "heartbeat_reply w1 = heartbeat_reply w"
          by (simp_all add: steps_def)
        obtain r2 w2 where pr: "print_statusline (Current_track m s title artist album) w1 = (r2, w2)"
          by fastforce
        from print_statusline_cases [OF pr] show ?thesis
        proof
          assume "r2 = Inr () \<and> w2 = emit ?l w1"
          with assms True t d td st ms Inr f same pr
          have w': "w' = emit ?h ((emit ?l w1)\<lparr>beats := Suc (beats w)\<rparr>)"
            and r: "r = (case heartbeat_reply w (beats w) of None \<Rightarrow> Inr () | Some e \<Rightarrow> Inl e)"
            by (auto simp: report_current_def Let_def split: option.splits)
          have "steps w1 w' [?l, ?h]" unfolding w'
            by (simp add: steps_def is_heartbeat_def same)
          with s1 have "steps w w' (ds @ [?l, ?h])" by (rule steps_trans)
          with dbg True t d td st ms Inr f r show ?thesis
            by (intro exI [of _ ds] exI [of _ "[?l, ?h]"]) auto
        next
          assume "r2 = Inl UnicodeEncodeError \<and> w2 = w1"
          with assms True t d td st ms Inr f pr have "w' = w1" "r = Inl UnicodeEncodeError"
            by (auto simp: report_current_def)
          with s1 dbg True show ?thesis by (intro exI [of _ ds] exI [of _ "[]"]) auto
        qed
      qed
    qed
  qed
qed


lemma debug_filters:
  assumes "list_all is_debug ds"
  shows "filter is_heartbeat ds = []" and "filter is_track_ended ds = []"
  using assms
  by (auto simp: filter_empty_conv list_all_iff dest: debug_not_heartbeat debug_not_ended)

lemma tracker_heartbeats:
  assumes "tracker b p st track w = (r, w')"
  shows "\<exists>xs hs. steps w w' xs \<and> filter is_heartbeat xs = hs \<and>
           (hs = [] \<or>
            (\<exists>d. hs = [Heartbeat b \<lparr>timestamp = clock w (beats w), data = d\<rparr> (p + 1) True])) \<and>
           (hs \<noteq> [] \<longrightarrow> present track) \<and>
           ((\<exists>st'. r = Inr st') \<longrightarrow> (hs \<noteq> [] \<longleftrightarrow> present track))"
proof -
  obtain r1 w1 where e: "report_ended st track w = (r1, w1)" by fastforce
  from report_ended_spec [OF e] obtain ds1 es1 where
    s1: "steps w w1 (ds1 @ es1)" and dbg1: "list_all is_debug ds1" and
    c1: "case r1 of
              Inl e \<Rightarrow> es1 = []
            | Inr _ \<Rightarrow>
                if ended_expected (last_track st) track
                then \<exists>lt ltd w1 m s title artist album.
                       last_track st = Some lt \<and> data_from_track lt (sp st) w = (Inr ltd, w1) \<and>
                       song_time lt = Inr (m, s) \<and> format_fields ltd = Inr (title, artist, album) \<and>
                       es1 = [Statusline (Track_ended m s title artist album)]
                else es1 = []"
    by blast
  from c1 have es1: "es1 = [] \<or> (\<exists>m s t a al. es1 = [Statusline (Track_ended m s t a al)])"
    by (cases r1) (auto split: if_splits)
  from es1 have "filter is_heartbeat es1 = []" by (auto simp: is_heartbeat_def)
  with dbg1 have no1: "filter is_heartbeat (ds1 @ es1) = []" by (simp add: debug_filters)
  show ?thesis
  proof (cases r1)
    case (Inl e1)
    with assms e have "w' = w1" "r = Inl e1" by (auto simp: tracker_def)
    with s1 no1 show ?thesis by fastforce
  next
    case (Inr u)
    obtain r2 w2 where c: "report_current b p st track w1 = (r2, w2)" by fastforce
    from assms e Inr c have w': "w' = w2"
      and r: "r = (case r2 of Inl e \<Rightarrow> Inl e | Inr _ \<Rightarrow> Inr (st\<lparr>last_track := track\<rparr>))"
      by (auto simp: tracker_def split: sum.splits)
    from s1 no1 have same: "clock w1 = clock w" "beats w1 = beats w"
      by (simp_all add: steps_def)
    from report_current_spec [OF c] obtain ds2 es2 where
      s2: "steps w1 w2 (ds2 @ es2)" and dbg2: "list_all is_debug ds2" and
      es2: "(\<not> present track \<and> r2 = Inr () \<and> es2 = [Statusline Waiting]) \<or>
            (present track \<and> (\<exists>e. r2 = Inl e) \<and> es2 = []) \<or>
            (present track \<and>
             (\<exists>d m s title artist album.
                es2 = [Statusline (Current_track m s title artist album),
                       Heartbeat b \<lparr>timestamp = clock w (beats w), data = d\<rparr> (p + 1) True]))"
      unfolding same by blast
    from s1 s2 have s: "steps w w' ((ds1 @ es1) @ (ds2 @ es2))"
      unfolding w' by (rule steps_trans)
    have f: "filter is_heartbeat ((ds1 @ es1) @ (ds2 @ es2)) = filter is_heartbeat es2"
      using no1 dbg2 by (simp add: debug_filters)
    from es2 r have main:
      "(filter is_heartbeat es2 = [] \<or>
        (\<exists>d. filter is_heartbeat es2 =
               [Heartbeat b \<lparr>timestamp = clock w (beats w), data = d\<rparr> (p + 1) True])) \<and>
       (filter is_heartbeat es2 \<noteq> [] \<longrightarrow> present track) \<and>
       ((\<exists>st'. r = Inr st') \<longrightarrow> (filter is_heartbeat es2 \<noteq> [] \<longleftrightarrow> present track))"
      by (auto simp: is_heartbeat_def)
    from s f have "steps w w' ((ds1 @ es1) @ (ds2 @ es2)) \<and>
        filter is_heartbeat ((ds1 @ es1) @ (ds2 @ es2)) = filter is_heartbeat es2"
      by simp
    with main show ?thesis by blast
  qed
qed


subsection \<open>The state from one iteration to the next\<close>

lemma get_current_track_world:
  "get_current_track s w = (r, w1) \<Longrightarrow> w1 = w\<lparr>polls := Suc (polls w)\<rparr>"
  by (auto simp: get_current_track_def Let_def split: sum.splits if_splits)

lemma world_of_sleep_then:
  "world_of (sleep_then d st w) = (if d < 0 then w else emit (Slept d) w)"
  by (simp add: sleep_then_def sleep_def)

lemma sleep_then_nonneg: "0 \<le> d \<Longrightarrow> sleep_then d st w = Running st (emit (Slept d) w)"
  by (simp add: sleep_then_def sleep_def)

lemma cycle_tracked:
  assumes "get_current_track (sp st) w = (Inr track, w1)"
      and "tracker b p st track w1 = (r, w2)"
  shows "cycle b p st w =
           (case r of
              Inl e \<Rightarrow> sleep_then p st (emit (Print_exception e) w2)
            | Inr st' \<Rightarrow> sleep_then p st' w2)"
  using assms by (simp add: cycle_def split: sum.splits)

lemma tracker_state:
  "tracker b p st track w = (Inr st', w') \<Longrightarrow> st' = st\<lparr>last_track := track\<rparr>"
  by (auto simp: tracker_def split: sum.splits prod.splits)

text \<open>What an iteration does when the poll raises.\<close>

lemma cycle_poll_failed:
  assumes "get_current_track (sp st) w = (Inl e, w1)"
  shows "cycle b p st w =
     (if e = SpotifyException then
        (if auth_reply w (auths w)
         then Running (st\<lparr>sp := Suc (auths w)\<rparr>)
                (emit (Authenticated (Suc (auths w)))
                   ((emit (Statusline Token_expired) w1)\<lparr>auths := Suc (auths w)\<rparr>))
         else Exited 1 ((emit (Statusline Token_expired) w1)\<lparr>auths := Suc (auths w)\<rparr>))
      else if e = ConnectionError then
        sleep_then p st
          (emit (Log_error ''Connection error while trying to get track, check your internet connection.'') w1)
      else if e = JSONDecodeError then
        Running st (emit (Slept 0.1) (emit (Log_error ''Error trying to decode'') w1))
      else
        Running st (emit (Slept 0.1) (emit (Log_traceback e) (emit (Log_error ''Unknown Error'') w1))))"
proof -
  from assms have w1: "w1 = w\<lparr>polls := Suc (polls w)\<rparr>" by (rule get_current_track_world)
  show ?thesis using assms
    by (simp add: cycle_def auth_def print_statusline_def sleep_then_nonneg Let_def w1 emit_def)
qed

lemma main_loop_Suc_end:
  "main_loop b p (Suc n) st w =
     (case main_loop b p n st w of
        Running st' w' \<Rightarrow> cycle b p st' w'
      | Raised e w' \<Rightarrow> Raised e w'
      | Exited c w' \<Rightarrow> Exited c w')"
proof (induction n arbitrary: st w)
  case 0
  show ?case by (simp split: outcome.splits)
next
  case (Suc n)
  show ?case
  proof (cases "cycle b p st w")
    case (Running st' w')
    then show ?thesis using Suc [of st' w'] by simp
  qed simp_all
qed

text \<open>
  Claim C1, as amended. For every run and every iteration of it whose poll returns and whose
  tracker raises no exception, the remembered \<^verbatim>\<open>last_track\<close> after the iteration is the
  value that iteration received from the poll, whichever of the track-ended, currently-playing
  and waiting branches fired; with a non-negative poll interval the loop goes on with it.
  (When the tracker raises, the assignment is skipped: that is claim C10.)
\<close>

theorem last_track_follows_poll:
  assumes "main_loop b p n st w = Running st\<^sub>n w\<^sub>n"
      and "get_current_track (sp st\<^sub>n) w\<^sub>n = (Inr track, w1)"
      and "tracker b p st\<^sub>n track w1 = (Inr st', w2)"
  shows "main_loop b p (Suc n) st w = sleep_then p (st\<^sub>n\<lparr>last_track := track\<rparr>) w2 \<and>
         (0 \<le> p \<longrightarrow>
            main_loop b p (Suc n) st w = Running (st\<^sub>n\<lparr>last_track := track\<rparr>) (emit (Slept p) w2))"
proof -
  from assms(3) have "st' = st\<^sub>n\<lparr>last_track := track\<rparr>" by (rule tracker_state)
  moreover have "main_loop b p (Suc n) st w = cycle b p st\<^sub>n w\<^sub>n"
    by (simp only: main_loop_Suc_end assms(1) outcome.case)
  ultimately have "main_loop b p (Suc n) st w = sleep_then p (st\<^sub>n\<lparr>last_track := track\<rparr>) w2"
    using assms(2,3) by (simp add: cycle_tracked)
  then show ?thesis by (simp add: sleep_then_nonneg)
qed

text \<open>The theorem above on an example.\<close>

theorem last_track_follows_poll_witness:
  "state_of (main_loop ''aw-watcher-spotify_host'' 5 (Suc 1) idle
      (scripted (Inr track_a) (Inl SpotifyException) None)) = Some (after track_a)"
proof -
  let ?W = "scripted (Inr track_a) (Inl SpotifyException) None"
  let ?b = "''aw-watcher-spotify_host''"
  let ?W1 = "world_of (main_loop ?b 5 1 idle ?W)"
  let ?w1 = "snd (get_current_track (sp (after track_a)) ?W1)"
  let ?w2 = "snd (tracker ?b 5 (after track_a) (Some track_a) ?w1)"
  have h1: "main_loop ?b 5 1 idle ?W = Running (after track_a) ?W1"
    by (rule running_with_world) code_simp
  have h2: "get_current_track (sp (after track_a)) ?W1 = (Inr (Some track_a), ?w1)"
    by (rule with_snd) code_simp
  have h3: "tracker ?b 5 (after track_a) (Some track_a) ?w1 = (Inr (after track_a), ?w2)"
    by (rule with_snd) code_simp
  have p: "(0::real) \<le> 5" by simp
  from last_track_follows_poll [OF h1 h2 h3, THEN conjunct2, rule_format, OF p]
  have r: "main_loop ?b 5 (Suc 1) idle ?W =
      Running ((after track_a)\<lparr>last_track := Some track_a\<rparr>) (emit (Slept 5) ?w2)" .
  show ?thesis by (simp only: r state_of.simps) (simp add: after_def)
qed

text \<open>
  The claim as first stated also covers an exception of the enrichment or of the heartbeat
  submission. Here the poll returns a playing track while nothing is remembered; in the first
  world the sink raises, in the second the audio-feature lookup raises \<^verbatim>\<open>ConnectionError\<close>,
  and both iterations end with nothing remembered.
\<close>

theorem last_track_not_updated_counterexample:
  "fst (get_current_track 1 (scripted (Inr track_a) (Inl SpotifyException) (Some ConnectionError))) =
     Inr (Some track_a) \<and>
   map_option last_track
     (state_of (cycle ''aw-watcher-spotify_host'' 5 idle
        (scripted (Inr track_a) (Inl SpotifyException) (Some ConnectionError)))) = Some None \<and>
   fst (get_current_track 1 (scripted (Inr track_a) (Inl ConnectionError) None)) =
     Inr (Some track_a) \<and>
   map_option last_track
     (state_of (cycle ''aw-watcher-spotify_host'' 5 idle
        (scripted (Inr track_a) (Inl ConnectionError) None))) = Some None"
  by code_simp

text \<open>
  Claim C10. In every run, when the tracker of an iteration raises an exception, be it from
  the enrichment or from the heartbeat, the state after the iteration is the state before it,
  \<^verbatim>\<open>last_track\<close> included: the exception is printed and the loop proceeds to
  \<^verbatim>\<open>sleep(poll_time)\<close>, and goes on when the poll interval is not negative.
\<close>

theorem last_track_kept_on_exception:
  assumes "main_loop b p n st w = Running st\<^sub>n w\<^sub>n"
      and "get_current_track (sp st\<^sub>n) w\<^sub>n = (Inr track, w1)"
      and "tracker b p st\<^sub>n track w1 = (Inl e, w2)"
  shows "main_loop b p (Suc n) st w = sleep_then p st\<^sub>n (emit (Print_exception e) w2) \<and>
         (0 \<le> p \<longrightarrow>
            main_loop b p (Suc n) st w =
              Running st\<^sub>n (emit (Slept p) (emit (Print_exception e) w2)))"
proof -
  have "main_loop b p (Suc n) st w = cycle b p st\<^sub>n w\<^sub>n"
    by (simp only: main_loop_Suc_end assms(1) outcome.case)
  with assms(2,3)
  have "main_loop b p (Suc n) st w = sleep_then p st\<^sub>n (emit (Print_exception e) w2)"
    by (simp add: cycle_tracked)
  then show ?thesis by (simp add: sleep_then_nonneg)
qed

text \<open>The theorem above on an example.\<close>

theorem last_track_kept_on_exception_witness:
  "fst (get_current_track 1 (scripted (Inr track_a) (Inl SpotifyException) (Some ConnectionError))) =
     Inr (Some track_a) \<and>
   state_of (main_loop ''aw-watcher-spotify_host'' 5 (Suc 0) (after track_b)
      (scripted (Inr track_a) (Inl SpotifyException) (Some ConnectionError))) = Some (after track_b)"
proof -
  let ?W = "scripted (Inr track_a) (Inl SpotifyException) (Some ConnectionError)"
  let ?b = "''aw-watcher-spotify_host''"
  let ?w1 = "snd (get_current_track (sp (after track_b)) ?W)"
  let ?w2 = "snd (tracker ?b 5 (after track_b) (Some track_a) ?w1)"
  have h1: "main_loop ?b 5 0 (after track_b) ?W = Running (after track_b) ?W" by simp
  have g: "fst (get_current_track 1 ?W) = Inr (Some track_a)" by code_simp
  have h2: "get_current_track (sp (after track_b)) ?W = (Inr (Some track_a), ?w1)"
    by (rule with_snd) code_simp
  have h3: "tracker ?b 5 (after track_b) (Some track_a) ?w1 = (Inl ConnectionError, ?w2)"
    by (rule with_snd) code_simp
  have p: "(0::real) \<le> 5" by simp
  from last_track_kept_on_exception [OF h1 h2 h3, THEN conjunct2, rule_format, OF p]
  have r: "main_loop ?b 5 (Suc 0) (after track_b) ?W =
      Running (after track_b) (emit (Slept 5) (emit (Print_exception ConnectionError) ?w2))" .
  show ?thesis by (simp only: r state_of.simps g)
qed

text \<open>
  Claim C5. When the poll raises, exactly one of four handlers runs. \<^verbatim>\<open>SpotifyException\<close>:
  the token-expired line and a new authentication, no sleep, and the loop goes on with the new
  session (when the credential exchange gives one). \<^verbatim>\<open>ConnectionError\<close>: an error line and
  a sleep of the poll interval. \<^verbatim>\<open>JSONDecodeError\<close>: an error line and a sleep of 0.1
  seconds. Any other exception: the error line, the traceback and a sleep of 0.1 seconds. In
  the last three the state, \<^verbatim>\<open>last_track\<close> included, is unchanged; in none is a heartbeat
  submitted, and the loop goes on.
\<close>

theorem poll_failure_handling:
  assumes "get_current_track (sp st) w = (Inl e, w1)"
  shows "(e = SpotifyException \<and> auth_reply w (auths w) \<longrightarrow>
            (\<exists>w'. cycle b p st w = Running (st\<lparr>sp := Suc (auths w)\<rparr>) w' \<and>
                  since w w' = [Statusline Token_expired, Authenticated (Suc (auths w))])) \<and>
         (e = ConnectionError \<and> 0 \<le> p \<longrightarrow>
            (\<exists>w'. cycle b p st w = Running st w' \<and>
                  since w w' =
                    [Log_error ''Connection error while trying to get track, check your internet connection.'',
                     Slept p])) \<and>
         (e = JSONDecodeError \<longrightarrow>
            (\<exists>w'. cycle b p st w = Running st w' \<and>
                  since w w' = [Log_error ''Error trying to decode'', Slept 0.1])) \<and>
         (e \<noteq> SpotifyException \<and> e \<noteq> ConnectionError \<and> e \<noteq> JSONDecodeError \<longrightarrow>
            (\<exists>w'. cycle b p st w = Running st w' \<and>
                  since w w' = [Log_error ''Unknown Error'', Log_traceback e, Slept 0.1]))"
proof -
  from assms have w1: "trace w1 = trace w" using get_current_track_world by fastforce
  show ?thesis
    unfolding cycle_poll_failed [OF assms]
    by (simp add: sleep_then_nonneg since_def w1)
qed

text \<open>The theorem above on an example.\<close>

theorem poll_failure_handling_witness:
  "(\<exists>w'. cycle ''aw-watcher-spotify_host'' 5 (after track_a)
            (scripted (Inl SpotifyException) (Inl SpotifyException) None) =
            Running ((after track_a)\<lparr>sp := 2\<rparr>) w' \<and>
          since (scripted (Inl SpotifyException) (Inl SpotifyException) None) w' =
            [Statusline Token_expired, Authenticated 2]) \<and>
   (\<exists>w'. cycle ''aw-watcher-spotify_host'' 5 (after track_a)
            (scripted (Inl ConnectionError) (Inl SpotifyException) None) =
            Running (after track_a) w' \<and>
          since (scripted (Inl ConnectionError) (Inl SpotifyException) None) w' =
            [Log_error ''Connection error while trying to get track, check your internet connection.'',
             Slept 5]) \<and>
   (\<exists>w'. cycle ''aw-watcher-spotify_host'' 5 (after track_a)
            (scripted (Inl JSONDecodeError) (Inl SpotifyException) None) =
            Running (after track_a) w' \<and>
          since (scripted (Inl JSONDecodeError) (Inl SpotifyException) None) w' =
            [Log_error ''Error trying to decode'', Slept 0.1]) \<and>
   (\<exists>w'. cycle ''aw-watcher-spotify_host'' 5 (after track_a)
            (scripted (Inr (JStr ''busy'')) (Inl SpotifyException) None) =
            Running (after track_a) w' \<and>
          since (scripted (Inr (JStr ''busy'')) (Inl SpotifyException) None) w' =
            [Log_error ''Unknown Error'', Log_traceback TypeError, Slept 0.1])"
proof -
  let ?b = "''aw-watcher-spotify_host''"
  let ?W1 = "scripted (Inl SpotifyException) (Inl SpotifyException) None"
  let ?W2 = "scripted (Inl ConnectionError) (Inl SpotifyException) None"
  let ?W3 = "scripted (Inl JSONDecodeError) (Inl SpotifyException) None"
  let ?W4 = "scripted (Inr (JStr ''busy'')) (Inl SpotifyException) None"
  have h1: "get_current_track (sp (after track_a)) ?W1 =
      (Inl SpotifyException, snd (get_current_track (sp (after track_a)) ?W1))"
    by (rule with_snd) code_simp
  have h2: "get_current_track (sp (after track_a)) ?W2 =
      (Inl ConnectionError, snd (get_current_track (sp (after track_a)) ?W2))"
    by (rule with_snd) code_simp
  have h3: "get_current_track (sp (after track_a)) ?W3 =
      (Inl JSONDecodeError, snd (get_current_track (sp (after track_a)) ?W3))"
    by (rule with_snd) code_simp
  have h4: "get_current_track (sp (after track_a)) ?W4 =
      (Inl TypeError, snd (get_current_track (sp (after track_a)) ?W4))"
    by (rule with_snd) code_simp
  have a: "auth_reply ?W1 (auths ?W1)" "Suc (auths ?W1) = 2" by (simp_all add: scripted_def)
  from poll_failure_handling [OF h1, where b = ?b and p = 5] poll_failure_handling [OF h2, where b = ?b and p = 5]
    poll_failure_handling [OF h3, where b = ?b and p = 5] poll_failure_handling [OF h4, where b = ?b and p = 5] a
  show ?thesis by simp
qed

subsection \<open>What an iteration submits and prints\<close>

lemma since_steps: "steps w w' xs \<Longrightarrow> since w w' = xs"
  by (simp add: steps_def since_def)

lemma get_current_track_steps: "get_current_track s w = (r, w1) \<Longrightarrow> steps w w1 []"
  by (drule get_current_track_world) (simp add: steps_def)

lemma sleep_then_steps:
  "\<exists>tl. steps w (world_of (sleep_then d st w)) tl \<and> (tl = [] \<or> tl = [Slept d])"
  by (simp add: world_of_sleep_then steps_def is_heartbeat_def)

lemma cycle_poll_failed_steps:
  assumes "get_current_track (sp st) w = (Inl e, w1)"
  shows "\<exists>xs. steps w (world_of (cycle b p st w)) xs \<and>
           filter is_heartbeat xs = [] \<and> filter is_track_ended xs = []"
proof -
  from assms have w1: "w1 = w\<lparr>polls := Suc (polls w)\<rparr>" by (rule get_current_track_world)
  have "\<exists>xs. trace (world_of (cycle b p st w)) = trace w @ xs \<and>
          filter is_heartbeat xs = [] \<and> filter is_track_ended xs = [] \<and>
          playback_reply (world_of (cycle b p st w)) = playback_reply w \<and>
          features_reply (world_of (cycle b p st w)) = features_reply w \<and>
          heartbeat_reply (world_of (cycle b p st w)) = heartbeat_reply w \<and>
          auth_reply (world_of (cycle b p st w)) = auth_reply w \<and>
          clock (world_of (cycle b p st w)) = clock w \<and>
          stdout_encodes (world_of (cycle b p st w)) = stdout_encodes w \<and>
          beats (world_of (cycle b p st w)) = beats w"
    unfolding cycle_poll_failed [OF assms]
    by (simp add: world_of_sleep_then w1 is_heartbeat_def is_track_ended_def)
  then show ?thesis by (auto simp: steps_def)
qed

lemma cycle_tracked_steps:
  assumes "get_current_track (sp st) w = (Inr track, w1)"
      and "tracker b p st track w1 = (r, w2)"
      and "steps w1 w2 xs"
  shows "\<exists>tl. steps w (world_of (cycle b p st w)) (xs @ tl) \<and>
           filter is_heartbeat tl = [] \<and> filter is_track_ended tl = []"
proof -
  from assms(1) have s0: "steps w w1 []" by (rule get_current_track_steps)
  from this assms(3) have s2: "steps w w2 ([] @ xs)" by (rule steps_trans)
  show ?thesis
  proof (cases r)
    case (Inl e)
    let ?w3 = "emit (Print_exception e) w2"
    from Inl assms have c: "cycle b p st w = sleep_then p st ?w3"
      by (simp add: cycle_tracked)
    have "steps w2 ?w3 [Print_exception e]"
      by (rule steps_emit) (simp add: is_heartbeat_def)
    with s2 have s3: "steps w ?w3 (([] @ xs) @ [Print_exception e])" by (rule steps_trans)
    from sleep_then_steps [of ?w3 p st] obtain tl where
      tl: "steps ?w3 (world_of (sleep_then p st ?w3)) tl" "tl = [] \<or> tl = [Slept p]" by blast
    from s3 tl(1) have "steps w (world_of (cycle b p st w)) (xs @ (Print_exception e # tl))"
      unfolding c by (auto dest: steps_trans)
    moreover from tl(2) have "filter is_heartbeat (Print_exception e # tl) = []"
      "filter is_track_ended (Print_exception e # tl) = []"
      by (auto simp: is_heartbeat_def is_track_ended_def)
    ultimately show ?thesis by blast
  next
    case (Inr st')
    from Inr assms have c: "cycle b p st w = sleep_then p st' w2"
      by (simp add: cycle_tracked)
    from sleep_then_steps [of w2 p st'] obtain tl where
      tl: "steps w2 (world_of (sleep_then p st' w2)) tl" "tl = [] \<or> tl = [Slept p]" by blast
    from s2 tl(1) have "steps w (world_of (cycle b p st w)) (xs @ tl)"
      unfolding c by (auto dest: steps_trans)
    moreover from tl(2) have "filter is_heartbeat tl = []" "filter is_track_ended tl = []"
      by (auto simp: is_heartbeat_def is_track_ended_def)
    ultimately show ?thesis by blast
  qed
qed







subsection \<open>The poll\<close>

text \<open>
  Claim C8. When \<^verbatim>\<open>sp.currently_playing\<close> returns, \<^verbatim>\<open>get_current_track\<close> returns
  \<^verbatim>\<open>None\<close> for a falsy answer (\<^verbatim>\<open>None\<close>, an empty dictionary) and for an answer whose
  \<^verbatim>\<open>is_playing\<close> is false alike; it returns an item exactly when the answer is truthy and
  its \<^verbatim>\<open>is_playing\<close> is truthy, and the item is the answer itself. The world only counts
  the poll.
\<close>

theorem get_current_track_spec:
  assumes "playback_reply w s (polls w) = Inr r"
  shows "(\<not> truthy r \<longrightarrow> fst (get_current_track s w) = Inr None) \<and>
         (getitem r ''is_playing'' = Inr (JBool False) \<longrightarrow> fst (get_current_track s w) = Inr None) \<and>
         (\<forall>t. fst (get_current_track s w) = Inr (Some t) \<longleftrightarrow>
                t = r \<and> truthy r \<and> (\<exists>playing. getitem r ''is_playing'' = Inr playing \<and> truthy playing)) \<and>
         snd (get_current_track s w) = w\<lparr>polls := Suc (polls w)\<rparr>"
  using assms
  by (cases "getitem r ''is_playing''") (auto simp: get_current_track_def Let_def)

text \<open>The theorem above on an example.\<close>

theorem get_current_track_spec_witness:
  "fst (get_current_track 1 (scripted (Inr JNull) (Inl SpotifyException) None)) = Inr None \<and>
   fst (get_current_track 1 (scripted (Inr paused_a) (Inl SpotifyException) None)) = Inr None \<and>
   fst (get_current_track 1 (scripted (Inr track_a) (Inl SpotifyException) None)) =
     Inr (Some track_a)"
proof -
  let ?W0 = "scripted (Inr JNull) (Inl SpotifyException) None"
  let ?W1 = "scripted (Inr paused_a) (Inl SpotifyException) None"
  let ?W2 = "scripted (Inr track_a) (Inl SpotifyException) None"
  have h0: "playback_reply ?W0 1 (polls ?W0) = Inr JNull"
    and h1: "playback_reply ?W1 1 (polls ?W1) = Inr paused_a"
    and h2: "playback_reply ?W2 1 (polls ?W2) = Inr track_a"
    by (simp_all add: scripted_def)
  have p1: "getitem paused_a ''is_playing'' = Inr (JBool False)"
    and p2: "truthy track_a" "getitem track_a ''is_playing'' = Inr (JBool True)"
    by code_simp+
  from get_current_track_spec [OF h0]
  have "fst (get_current_track 1 ?W0) = Inr None" by simp
  moreover from get_current_track_spec [OF h1] p1
  have "fst (get_current_track 1 ?W1) = Inr None" by blast
  moreover from get_current_track_spec [OF h2] p2
  have "fst (get_current_track 1 ?W2) = Inr (Some track_a)" by simp
  ultimately show ?thesis by simp
qed

subsection \<open>The heartbeats of a run\<close>

lemma stamps_filter: "stamps (filter is_heartbeat xs) = stamps xs"
  by (induction xs rule: stamps.induct) (simp_all add: is_heartbeat_def)

lemma stamps_append: "stamps (xs @ ys) = stamps xs @ stamps ys"
  by (induction xs rule: stamps.induct) simp_all

lemma cycle_heartbeat_steps:
  "\<exists>xs. steps w (world_of (cycle b p st w)) xs \<and>
       (filter is_heartbeat xs = [] \<or>
        (\<exists>d. filter is_heartbeat xs =
               [Heartbeat b \<lparr>timestamp = clock w (beats w), data = d\<rparr> (p + 1) True]))"
proof -
  obtain r0 w1 where g: "get_current_track (sp st) w = (r0, w1)" by fastforce
  show ?thesis
  proof (cases r0)
    case (Inl e)
    with g cycle_poll_failed_steps [of st w e w1 b p] show ?thesis by auto
  next
    case (Inr track)
    obtain r w2 where t: "tracker b p st track w1 = (r, w2)" by fastforce
    from g have same: "clock w1 = clock w" "beats w1 = beats w"
      by (auto dest: get_current_track_world)
    from tracker_heartbeats [OF t] obtain xs where
      xs: "steps w1 w2 xs" and
      hs: "filter is_heartbeat xs = [] \<or>
            (\<exists>d. filter is_heartbeat xs =
                   [Heartbeat b \<lparr>timestamp = clock w (beats w), data = d\<rparr> (p + 1) True])"
      unfolding same by blast
    from g Inr have g': "get_current_track (sp st) w = (Inr track, w1)" by simp
    from cycle_tracked_steps [OF g' t xs] obtain tl where
      "steps w (world_of (cycle b p st w)) (xs @ tl)" "filter is_heartbeat tl = []" by blast
    with hs show ?thesis by (intro exI [of _ "xs @ tl"]) simp
  qed
qed

lemma cycle_stamps:
  "\<exists>xs. steps w (world_of (cycle b p st w)) xs \<and>
       stamps xs = map (\<lambda>k. (b, clock w k, p + 1, True)) [beats w ..< beats (world_of (cycle b p st w))]"
proof -
  from cycle_heartbeat_steps [of w b p st] obtain xs where
    s: "steps w (world_of (cycle b p st w)) xs" and
    hs: "filter is_heartbeat xs = [] \<or>
        (\<exists>d. filter is_heartbeat xs =
               [Heartbeat b \<lparr>timestamp = clock w (beats w), data = d\<rparr> (p + 1) True])"
    by blast
  from s have b: "beats (world_of (cycle b p st w)) = beats w + length (filter is_heartbeat xs)"
    by (simp add: steps_def)
  from hs have "stamps (filter is_heartbeat xs) =
      map (\<lambda>k. (b, clock w k, p + 1, True)) [beats w ..< beats w + length (filter is_heartbeat xs)]"
    by auto
  with s b show ?thesis by (auto simp: stamps_filter)
qed

lemma main_loop_stamps:
  "\<exists>xs. steps w (world_of (main_loop b p n st w)) xs \<and>
       stamps xs =
         map (\<lambda>k. (b, clock w k, p + 1, True)) [beats w ..< beats (world_of (main_loop b p n st w))]"
proof (induction n arbitrary: st w)
  case 0
  show ?case using steps_refl [of w] by (intro exI [of _ "[]"]) simp
next
  case (Suc n)
  from cycle_stamps [of w b p st] obtain xs where
    s: "steps w (world_of (cycle b p st w)) xs" and
    x: "stamps xs =
          map (\<lambda>k. (b, clock w k, p + 1, True)) [beats w ..< beats (world_of (cycle b p st w))]"
    by blast
  show ?case
  proof (cases "cycle b p st w")
    case (Running st' w')
    from Suc [of w' st'] obtain ys where
      s': "steps w' (world_of (main_loop b p n st' w')) ys" and
      y: "stamps ys =
            map (\<lambda>k. (b, clock w' k, p + 1, True)) [beats w' ..< beats (world_of (main_loop b p n st' w'))]"
      by blast
    let ?w'' = "world_of (main_loop b p n st' w')"
    from s Running have sw: "steps w w' xs" by simp
    then have c: "clock w' = clock w" and le1: "beats w \<le> beats w'" by (simp_all add: steps_def)
    from s' have le2: "beats w' \<le> beats ?w''" by (simp add: steps_def)
    from le1 le2 have "[beats w ..< beats ?w''] = [beats w ..< beats w'] @ [beats w' ..< beats ?w'']"
      by (metis le_Suc_ex upt_add_eq_append)
    with x y c Running have "stamps (xs @ ys) =
        map (\<lambda>k. (b, clock w k, p + 1, True)) [beats w ..< beats ?w'']"
      by (simp add: stamps_append)
    moreover from sw s' have "steps w ?w'' (xs @ ys)" by (rule steps_trans)
    ultimately show ?thesis using Running by (intro exI [of _ "xs @ ys"]) simp
  next
    case (Raised e w')
    with s x show ?thesis by (intro exI [of _ xs]) simp
  next
    case (Exited c w')
    with s x show ?thesis by (intro exI [of _ xs]) simp
  qed
qed

text \<open>
  Claim C4. Over any number of iterations from any state, the heartbeats submitted are, in
  order, one for each reading of the clock taken since: each goes to the bucket of the
  watcher, carries the timestamp read for it, the pulsetime \<open>poll_time + 1\<close>, and is
  queued.
\<close>

theorem heartbeat_pulsetime:
  "stamps (since w (world_of (main_loop b p n st w))) =
     map (\<lambda>k. (b, clock w k, p + 1, True)) [beats w ..< beats (world_of (main_loop b p n st w))]"
  using main_loop_stamps [of w b p n st] by (auto dest: since_steps)

text \<open>The theorem above on an example.\<close>

theorem heartbeat_pulsetime_witness:
  "stamps (since (scripted (Inr track_a) (Inl SpotifyException) None)
      (world_of (main_loop ''aw-watcher-spotify_host'' 5 2 idle
         (scripted (Inr track_a) (Inl SpotifyException) None)))) =
   [(''aw-watcher-spotify_host'', 1000, 6, True), (''aw-watcher-spotify_host'', 1001, 6, True)]"
proof -
  let ?W = "scripted (Inr track_a) (Inl SpotifyException) None"
  let ?b = "''aw-watcher-spotify_host''"
  have b: "beats (world_of (main_loop ?b 5 2 idle ?W)) = Suc (Suc 0)" by code_simp
  have w: "beats ?W = 0" "clock ?W = (\<lambda>n. 1000 + int n)" by (simp_all add: scripted_def)
  show ?thesis
    unfolding heartbeat_pulsetime [where w = ?W and b = ?b and p = 5 and n = 2 and st = idle] b w by (simp add: upt_rec)
qed

subsection \<open>Audio features that cannot be had\<close>















text \<open>
  The print of the status line stands between the enrichment and the heartbeat as well: on a
  console that writes ASCII only, a track whose name has another character is enriched, the
  lookup's \<^verbatim>\<open>SpotifyException\<close> absorbed, and yet no heartbeat is submitted.
\<close>

lemma unprintable_title_no_heartbeat:
  "fst (data_from_track track_accent 1
          (ascii_console (Inr track_accent) (Inl SpotifyException))) =
     Inr [(''title'', JStr (''Caf'' @ [char_of (233 :: nat)])),
          (''uri'', JStr ''spotify:track:T5''), (''popularity'', JInt 40),
          (''album'', JStr ''LP''), (''artist'', JStr ''Band'')] \<and>
   actions ''aw-watcher-spotify_host'' 5 idle
     (ascii_console (Inr track_accent) (Inl SpotifyException)) =
     [Log_debug_track (JStr (''Caf'' @ [char_of (233 :: nat)])) (JStr ''Band'') (JStr ''LP''),
      Print_exception UnicodeEncodeError, Slept 5]"
  by code_simp

end
